theory Spec2Isabelle
  imports Main "HOL-Library.DAList"
begin

section \<open>Cache manager\<close>

text \<open>
  The cache manager keeps a JavaScript \<open>Map<CacheKey, CacheEntry>\<close>: unique keys, kept in
  insertion order. It is modelled as a distinct association list. \<open>Map.set\<close> on a key that
  is present replaces the value in place and on a new key appends, which is what
  \<open>DAList.update\<close> does; \<open>Map.delete\<close> is \<open>DAList.delete\<close>; \<open>Map.get\<close> is \<open>DAList.lookup\<close>.
  \<open>Date.now()\<close> is an input of every operation that reads the clock (integer milliseconds),
  and the mutated map is returned.
\<close>

datatype CacheKey = Dashboard | Clients | Deals | Activities | Notifications

record 'a CacheEntry =
  data :: 'a
  timestamp :: int
  dependencies :: "CacheKey list"

type_synonym 'a cache = "(CacheKey, 'a CacheEntry) alist"

definition DEFAULT_TTL :: int where
  "DEFAULT_TTL = 5 * 60 * 1000"

definition set_cache :: "CacheKey \<Rightarrow> 'a \<Rightarrow> CacheKey list \<Rightarrow> int \<Rightarrow> int \<Rightarrow> 'a cache \<Rightarrow> 'a cache" where
  "set_cache key d deps ttl now c =
     DAList.update key \<lparr>data = d, timestamp = now + ttl, dependencies = deps\<rparr> c"

text \<open>\<open>get\<close> returns \<open>None\<close> for JavaScript's \<open>null\<close>, together with the map after the lazy eviction.\<close>

definition get_cache :: "CacheKey \<Rightarrow> int \<Rightarrow> 'a cache \<Rightarrow> 'a option \<times> 'a cache" where
  "get_cache key now c =
     (case DAList.lookup c key of
        None \<Rightarrow> (None, c)
      | Some entry \<Rightarrow>
          if now > timestamp entry then (None, DAList.delete key c)
          else (Some (data entry), c))"

definition invalidate :: "CacheKey \<Rightarrow> 'a cache \<Rightarrow> 'a cache" where
  "invalidate key c =
     (let c1 = DAList.delete key c;
          keysToInvalidate =
            map fst (filter (\<lambda>(cacheKey, entry). key \<in> set (dependencies entry)) (DAList.impl_of c1))
      in fold DAList.delete keysToInvalidate c1)"

definition invalidateAll :: "'a cache \<Rightarrow> 'a cache" where
  "invalidateAll c = DAList.empty"

definition has :: "CacheKey \<Rightarrow> int \<Rightarrow> 'a cache \<Rightarrow> bool" where
  "has key now c =
     (case DAList.lookup c key of None \<Rightarrow> False | Some entry \<Rightarrow> now \<le> timestamp entry)"

record cache_stats =
  size_stats :: nat
  keys_stats :: "CacheKey list"

definition getStats :: "'a cache \<Rightarrow> cache_stats" where
  "getStats c = \<lparr>size_stats = length (DAList.impl_of c), keys_stats = map fst (DAList.impl_of c)\<rparr>"

definition cleanup :: "int \<Rightarrow> 'a cache \<Rightarrow> 'a cache" where
  "cleanup now c =
     (let expiredKeys = map fst (filter (\<lambda>(key, entry). now > timestamp entry) (DAList.impl_of c))
      in fold DAList.delete expiredKeys c)"

definition invalidateClientCache :: "'a cache \<Rightarrow> 'a cache" where
  "invalidateClientCache c = invalidate Dashboard (invalidate Clients c)"

definition invalidateDealCache :: "'a cache \<Rightarrow> 'a cache" where
  "invalidateDealCache c = invalidate Dashboard (invalidate Deals c)"

definition invalidateActivityCache :: "'a cache \<Rightarrow> 'a cache" where
  "invalidateActivityCache c = invalidate Dashboard (invalidate Activities c)"

definition invalidateNotificationCache :: "'a cache \<Rightarrow> 'a cache" where
  "invalidateNotificationCache c = invalidate Dashboard (invalidate Notifications c)"

section \<open>Environment configuration and the availability check\<close>

text \<open>
  The module state of \<open>config/environment.ts\<close>: the configuration object and the two
  variables of the connection check. \<open>isSupabaseAvailable\<close> reads the clock once (\<open>now\<close>) and may
  issue one HEAD request; the answer the network would give is an input, and the function
  returns which of its three return points was taken next to the value and the new state.
\<close>

record EnvironmentConfig =
  supabaseUrl :: string
  supabaseAnonKey :: string
  isDevelopment :: bool
  isProduction :: bool
  enableMockData :: bool
  apiTimeout :: int
  cacheTimeout :: int

datatype connection_status = Unknown | Connected | Failed

record environment =
  defaultConfig :: EnvironmentConfig
  supabaseConnectionStatus :: connection_status
  lastConnectionCheck :: int

definition CONNECTION_CHECK_INTERVAL :: int where
  "CONNECTION_CHECK_INTERVAL = 30000"

definition isSupabaseConfigured :: "environment \<Rightarrow> bool" where
  "isSupabaseConfigured env =
     (supabaseUrl (defaultConfig env) \<noteq> [] \<and> supabaseAnonKey (defaultConfig env) \<noteq> [])"

text \<open>
  The outcome of the HEAD request: a response with \<open>ok\<close> true, a response with \<open>ok\<close> false, or
  a rejected promise (network error, or the 5 second timeout), which the \<open>catch\<close> turns into
  a console warning and the status \<open>failed\<close>.
\<close>

datatype head_response = ResponseOk | ResponseNotOk | RequestFailed

datatype check_path = CachedStatus | NotConfigured | HeadRequest head_response

definition isSupabaseAvailable ::
  "head_response \<Rightarrow> int \<Rightarrow> environment \<Rightarrow> bool \<times> environment \<times> check_path" where
  "isSupabaseAvailable response now env =
     (if now - lastConnectionCheck env < CONNECTION_CHECK_INTERVAL
         \<and> supabaseConnectionStatus env \<noteq> Unknown
      then (supabaseConnectionStatus env = Connected, env, CachedStatus)
      else if \<not> isSupabaseConfigured env
      then (False, env\<lparr>supabaseConnectionStatus := Failed, lastConnectionCheck := now\<rparr>, NotConfigured)
      else
        (let status = (case response of
                         ResponseOk \<Rightarrow> Connected
                       | ResponseNotOk \<Rightarrow> Failed
                       | RequestFailed \<Rightarrow> Failed)
         in (status = Connected,
             env\<lparr>supabaseConnectionStatus := status, lastConnectionCheck := now\<rparr>,
             HeadRequest response)))"

text \<open>\<open>shouldUseMockData\<close> returns the path of the availability check when it made one.\<close>

definition shouldUseMockData ::
  "head_response \<Rightarrow> int \<Rightarrow> environment \<Rightarrow> bool \<times> environment \<times> check_path option" where
  "shouldUseMockData response now env =
     (if enableMockData (defaultConfig env) then (True, env, None)
      else if isDevelopment (defaultConfig env)
      then (case isSupabaseAvailable response now env of
              (isAvailable, env', path) \<Rightarrow> (\<not> isAvailable, env', Some path))
      else (False, env, None))"

text \<open>The exported function \<open>enableMockData(enable)\<close>; the field of the same name keeps the name.\<close>

definition enableMockData_call :: "bool \<Rightarrow> environment \<Rightarrow> environment" where
  "enableMockData_call enable env =
     env\<lparr>defaultConfig := (defaultConfig env)\<lparr>enableMockData := enable\<rparr>,
         supabaseConnectionStatus := Unknown,
         lastConnectionCheck := 0\<rparr>"

definition resetConnectionStatus :: "environment \<Rightarrow> environment" where
  "resetConnectionStatus env = env\<lparr>supabaseConnectionStatus := Unknown, lastConnectionCheck := 0\<rparr>"

section \<open>System health snapshot\<close>

text \<open>
  \<open>checkSystemHealth\<close> awaits \<open>checkSupabaseHealth()\<close>; the record that probe resolves to is an
  input (\<open>supabaseStatus\<close>). The model is sequential: nothing else runs during the 100 ms
  wait that the function makes when \<open>healthCheckInProgress\<close> is set, so after the wait it
  reads the same \<open>lastHealthCheck\<close>.
\<close>

datatype health_level = Healthy | Degraded | Unhealthy

record HealthStatus =
  service :: string
  status :: health_level
  lastCheck :: int
  error :: "string option"
  responseTime :: "int option"

record SystemHealth =
  overall :: health_level
  services :: "HealthStatus list"
  timestamp_health :: int

record health_state =
  lastHealthCheck :: "SystemHealth option"
  healthCheckInProgress :: bool

definition HEALTH_CHECK_CACHE_DURATION :: int where
  "HEALTH_CHECK_CACHE_DURATION = 30000"

text \<open>The block of \<open>checkSystemHealth\<close> that determines the general state from \<open>services\<close>.\<close>

definition overall_of :: "HealthStatus list \<Rightarrow> health_level" where
  "overall_of svcs =
     (let unhealthyServices = filter (\<lambda>s. status s = Unhealthy) svcs;
          degradedServices = filter (\<lambda>s. status s = Degraded) svcs
      in if length unhealthyServices > 0 then Unhealthy
         else if length degradedServices > 0 then Degraded
         else Healthy)"

definition run_checks :: "int \<Rightarrow> HealthStatus \<Rightarrow> health_state \<Rightarrow> SystemHealth \<times> health_state" where
  "run_checks now supabaseStatus st =
     (let svcs = [supabaseStatus];
          systemHealth = \<lparr>overall = overall_of svcs, services = svcs, timestamp_health = now\<rparr>
      in (systemHealth, st\<lparr>lastHealthCheck := Some systemHealth, healthCheckInProgress := False\<rparr>))"

definition checkSystemHealth ::
  "bool \<Rightarrow> int \<Rightarrow> HealthStatus \<Rightarrow> health_state \<Rightarrow> SystemHealth \<times> health_state" where
  "checkSystemHealth forceRefresh now supabaseStatus st =
     (case lastHealthCheck st of
        None \<Rightarrow> run_checks now supabaseStatus st
      | Some h \<Rightarrow>
          if \<not> forceRefresh \<and> now - timestamp_health h < HEALTH_CHECK_CACHE_DURATION then (h, st)
          else if healthCheckInProgress st then (h, st)
          else run_checks now supabaseStatus st)"

section \<open>Structured logger\<close>

text \<open>
  The logger writes to three sinks: the console, the \<open>localStorage\<close> item \<open>app_logs\<close> and a
  remote endpoint. The world it acts on is a record of what those sinks hold; \<open>log\<close> takes
  the world and returns the new one. Each \<open>try\<close>/\<open>catch\<close> of the source is a branch: the
  stored item may fail to parse, or parse to a value that the spread \<open>[entry, ...existingLogs]\<close>
  rejects, \<open>setItem\<close> may throw (quota), the POST may be rejected.
  Payloads (\<open>data\<close>) are opaque values of type \<open>'d\<close> that serialise to JSON and back unchanged.
\<close>

datatype LogLevel = DEBUG | INFO | WARN | ERROR | CRITICAL

text \<open>The numeric values of the enum, which \<open>>=\<close> compares, and the reverse mapping \<open>LogLevel[level]\<close>.\<close>

fun level_value :: "LogLevel \<Rightarrow> nat" where
  "level_value DEBUG = 0"
| "level_value INFO = 1"
| "level_value WARN = 2"
| "level_value ERROR = 3"
| "level_value CRITICAL = 4"

fun level_name :: "LogLevel \<Rightarrow> string" where
  "level_name DEBUG = ''DEBUG''"
| "level_name INFO = ''INFO''"
| "level_name WARN = ''WARN''"
| "level_name ERROR = ''ERROR''"
| "level_name CRITICAL = ''CRITICAL''"

record 'd LogEntry =
  id_log :: string
  timestamp_log :: string
  level :: LogLevel
  message :: string
  context_log :: "string option"
  data_log :: "'d option"
  stack :: "string option"
  userAgent :: "string option"
  url :: "string option"

record LoggerConfig =
  level_config :: LogLevel
  enableConsole :: bool
  enableStorage :: bool
  maxStorageEntries :: int
  enableRemoteLogging :: bool
  remoteEndpoint :: "string option"

text \<open>The logger object; \<open>node_env\<close> is \<open>process.env.NODE_ENV\<close>, sent with every remote entry.\<close>

record Logger =
  config :: LoggerConfig
  sessionId :: string
  node_env :: "string option"

text \<open>
  What one call reads from the clock and the random generator: the decimal \<open>Date.now()\<close>,
  the base-36 digits of \<open>Math.random()\<close>, the ISO time of \<open>new Date()\<close> and that time as
  \<open>toLocaleTimeString\<close> prints it.
\<close>

record clock =
  now_digits :: string
  random_digits :: string
  iso_time :: string
  locale_time :: string

datatype console_method = Console_debug | Console_info | Console_warn | Console_error

datatype 'd console_arg = Text string | Data "'d option" | Caught_error

type_synonym 'd console_call = "console_method \<times> 'd console_arg list"

record browser_window =
  navigator_userAgent :: string
  location_href :: string

text \<open>
  The item under \<open>app_logs\<close>: absent (or the empty string), the JSON of an array of entries,
  JSON of a value that is not an array and cannot be spread (\<open>null\<close>, an object, a number, a
  boolean), or text that \<open>JSON.parse\<close> rejects. The logger itself only writes arrays of entries;
  other stored text (a JSON string, an array of other values) is not represented.
\<close>

datatype 'd storage_item = No_item | Json_logs "'d LogEntry list" | Json_non_array | Unparsable

text \<open>What \<open>getStoredLogs\<close> returns: \<open>JSON.parse\<close> is not checked, so it need not be an array.\<close>

datatype 'd parsed_logs = Log_array "'d LogEntry list" | Not_iterable

record 'd remote_post =
  post_endpoint :: string
  post_entry :: "'d LogEntry"
  post_sessionId :: string
  post_environment :: "string option"

datatype fetch_outcome = Fulfilled | Rejected

datatype promise_state = Resolved | Rejected_promise

record 'd world =
  window :: "browser_window option"
  app_logs :: "'d storage_item"
  setItem_throws :: bool
  console :: "'d console_call list"
  posts :: "'d remote_post list"

definition shouldLog :: "Logger \<Rightarrow> LogLevel \<Rightarrow> bool" where
  "shouldLog lg lvl = (level_value lvl \<ge> level_value (level_config (config lg)))"

text \<open>The \<open>error\<close> argument is \<open>None\<close> when no \<open>Error\<close> is passed, and else the error's \<open>stack\<close>.\<close>

definition createLogEntry ::
  "clock \<Rightarrow> browser_window option \<Rightarrow> LogLevel \<Rightarrow> string \<Rightarrow> string option \<Rightarrow> 'd option \<Rightarrow>
     string option option \<Rightarrow> 'd LogEntry" where
  "createLogEntry clk win lvl msg ctx d err =
     \<lparr>id_log = ''log_'' @ now_digits clk @ ''_'' @ random_digits clk,
      timestamp_log = iso_time clk,
      level = lvl,
      message = msg,
      context_log = ctx,
      data_log = d,
      stack = (case err of None \<Rightarrow> None | Some error_stack \<Rightarrow> error_stack),
      userAgent = map_option navigator_userAgent win,
      url = map_option location_href win\<rparr>"

definition console_message :: "clock \<Rightarrow> 'd LogEntry \<Rightarrow> string" where
  "console_message clk entry =
     (let prefix = ''['' @ locale_time clk @ ''] ['' @ level_name (level entry) @ '']''
      in case context_log entry of
           None \<Rightarrow> prefix @ '' '' @ message entry
         | Some c \<Rightarrow>
             if c = [] then prefix @ '' '' @ message entry
             else prefix @ '' ['' @ c @ ''] '' @ message entry)"

definition logToConsole :: "Logger \<Rightarrow> clock \<Rightarrow> 'd LogEntry \<Rightarrow> 'd world \<Rightarrow> 'd world" where
  "logToConsole lg clk entry w =
     (if \<not> enableConsole (config lg) then w
      else
        (let msg = console_message clk entry
         in case level entry of
              DEBUG \<Rightarrow> w\<lparr>console := console w @ [(Console_debug, [Text msg, Data (data_log entry)])]\<rparr>
            | INFO \<Rightarrow> w\<lparr>console := console w @ [(Console_info, [Text msg, Data (data_log entry)])]\<rparr>
            | WARN \<Rightarrow> w\<lparr>console := console w @ [(Console_warn, [Text msg, Data (data_log entry)])]\<rparr>
            | _ \<Rightarrow>
                w\<lparr>console := console w @ [(Console_error, [Text msg, Data (data_log entry)])] @
                     (case stack entry of
                        None \<Rightarrow> []
                      | Some s \<Rightarrow>
                          if s = [] then []
                          else [(Console_error, [Text ''Stack trace:'', Text s])])\<rparr>))"

definition getStoredLogs :: "'d world \<Rightarrow> 'd parsed_logs \<times> 'd world" where
  "getStoredLogs w =
     (if window w = None then (Log_array [], w)
      else case app_logs w of
             No_item \<Rightarrow> (Log_array [], w)
           | Json_logs logs \<Rightarrow> (Log_array logs, w)
           | Json_non_array \<Rightarrow> (Not_iterable, w)
           | Unparsable \<Rightarrow>
               (Log_array [], w\<lparr>console := console w @
                        [(Console_warn, [Text ''Failed to retrieve stored logs:'', Caught_error])]\<rparr>))"

text \<open>
  \<open>Array.prototype.slice(0, end)\<close> for an integer \<open>end\<close>: a negative \<open>end\<close> counts from the end
  of the array.
\<close>

definition slice0 :: "int \<Rightarrow> 'a list \<Rightarrow> 'a list" where
  "slice0 end_index xs =
     (if end_index < 0 then take (nat (int (length xs) + end_index)) xs
      else take (nat end_index) xs)"

definition logToStorage :: "Logger \<Rightarrow> 'd LogEntry \<Rightarrow> 'd world \<Rightarrow> 'd world" where
  "logToStorage lg entry w =
     (if \<not> enableStorage (config lg) \<or> window w = None then w
      else case getStoredLogs w of
             (existingLogs, w1) \<Rightarrow>
               (case existingLogs of
                  Not_iterable \<Rightarrow>
                    w1\<lparr>console := console w1 @
                         [(Console_warn, [Text ''Failed to store log entry:'', Caught_error])]\<rparr>
                | Log_array logs \<Rightarrow>
                    (let updatedLogs = slice0 (maxStorageEntries (config lg)) (entry # logs)
                     in if setItem_throws w1
                        then w1\<lparr>console := console w1 @
                               [(Console_warn, [Text ''Failed to store log entry:'', Caught_error])]\<rparr>
                        else w1\<lparr>app_logs := Json_logs updatedLogs\<rparr>)))"

text \<open>
  \<open>logToRemote\<close> is an \<open>async\<close> function: it returns a promise. The POST is issued before the
  function first suspends; the model records it and applies the outcome at once.
\<close>

definition logToRemote ::
  "Logger \<Rightarrow> fetch_outcome \<Rightarrow> 'd LogEntry \<Rightarrow> 'd world \<Rightarrow> promise_state \<times> 'd world" where
  "logToRemote lg outcome entry w =
     (case remoteEndpoint (config lg) of
        None \<Rightarrow> (Resolved, w)
      | Some endpoint \<Rightarrow>
          if \<not> enableRemoteLogging (config lg) \<or> endpoint = [] then (Resolved, w)
          else
            (let w1 = w\<lparr>posts := posts w @
                          [\<lparr>post_endpoint = endpoint, post_entry = entry,
                            post_sessionId = sessionId lg, post_environment = node_env lg\<rparr>]\<rparr>
             in case outcome of
                  Fulfilled \<Rightarrow> (Resolved, w1)
                | Rejected \<Rightarrow>
                    (Resolved,
                     w1\<lparr>console := console w1 @
                          [(Console_warn, [Text ''Failed to send log to remote endpoint:'', Caught_error])]\<rparr>)))"

text \<open>\<open>log\<close> does not await the promise of \<open>logToRemote\<close>: whatever its state, \<open>log\<close> returns.\<close>

definition log ::
  "Logger \<Rightarrow> clock \<Rightarrow> fetch_outcome \<Rightarrow> LogLevel \<Rightarrow> string \<Rightarrow> string option \<Rightarrow> 'd option \<Rightarrow>
     string option option \<Rightarrow> 'd world \<Rightarrow> 'd world" where
  "log lg clk outcome lvl msg ctx d err w =
     (if \<not> shouldLog lg lvl then w
      else
        (let entry = createLogEntry clk (window w) lvl msg ctx d err;
             w1 = logToConsole lg clk entry w;
             w2 = logToStorage lg entry w1
         in if level_value lvl \<ge> level_value ERROR then snd (logToRemote lg outcome entry w2)
            else w2))"






section \<open>Example states\<close>

text \<open>Concrete configurations and states on which the properties below are exercised.\<close>

definition example_env :: environment where
  "example_env =
     \<lparr>defaultConfig =
        \<lparr>supabaseUrl = ''https://db.example'', supabaseAnonKey = ''anon'',
         isDevelopment = False, isProduction = True, enableMockData = False,
         apiTimeout = 10000, cacheTimeout = 300000\<rparr>,
      supabaseConnectionStatus = Unknown,
      lastConnectionCheck = 0\<rparr>"

definition example_service :: "health_level \<Rightarrow> HealthStatus" where
  "example_service lvl =
     \<lparr>service = ''supabase'', status = lvl, lastCheck = 10, error = None, responseTime = Some 3\<rparr>"

definition example_health_state :: health_state where
  "example_health_state =
     \<lparr>lastHealthCheck =
        Some \<lparr>overall = Degraded, services = [example_service Degraded], timestamp_health = 10\<rparr>,
      healthCheckInProgress = False\<rparr>"






section \<open>Properties of the cache manager\<close>

subsection \<open>The map after deletions\<close>

lemma impl_of_delete: "DAList.impl_of (DAList.delete k c) = filter (\<lambda>(k', e). k' \<noteq> k) (DAList.impl_of c)"
  by transfer (auto simp: AList.delete_eq intro: filter_cong)

lemma impl_of_fold_delete:
  "DAList.impl_of (fold DAList.delete ks c) = filter (\<lambda>(k, e). k \<notin> set ks) (DAList.impl_of c)"
proof (induction ks arbitrary: c)
  case Nil
  show ?case by simp
next
  case (Cons k ks)
  show ?case
    by (simp add: Cons.IH impl_of_delete case_prod_unfold conj_commute)
qed

lemma distinct_key_selected:
  assumes "distinct (map fst xs)" and "(k, e) \<in> set xs"
  shows "k \<in> set (map fst (filter P xs)) \<longleftrightarrow> P (k, e)"
proof
  assume "k \<in> set (map fst (filter P xs))"
  then obtain e' where e': "(k, e') \<in> set xs" "P (k, e')" by auto
  with assms have "e' = e" by (meson eq_key_imp_eq_value)
  with e' show "P (k, e)" by simp
next
  assume "P (k, e)"
  with assms(2) show "k \<in> set (map fst (filter P xs))" by force
qed

lemma filter_unselected:
  assumes "distinct (map fst xs)"
  shows "filter (\<lambda>(k, e). k \<notin> set (map fst (filter P xs))) xs = filter (\<lambda>x. \<not> P x) xs"
proof (rule filter_cong[OF refl])
  fix x assume mem: "x \<in> set xs"
  obtain k e where x: "x = (k, e)" by (cases x)
  from mem distinct_key_selected[OF assms, of k e P]
  show "(case x of (k, e) \<Rightarrow> k \<notin> set (map fst (filter P xs))) = (\<not> P x)"
    by (simp add: x)
qed

lemma impl_of_invalidate:
  "DAList.impl_of (invalidate key c) =
     filter (\<lambda>(k, e). k \<noteq> key \<and> key \<notin> set (dependencies e)) (DAList.impl_of c)"
proof -
  let ?c1 = "DAList.delete key c"
  have "DAList.impl_of (invalidate key c) =
          filter (\<lambda>x. \<not> (case x of (cacheKey, entry) \<Rightarrow> key \<in> set (dependencies entry))) (DAList.impl_of ?c1)"
    unfolding invalidate_def Let_def impl_of_fold_delete
    by (rule filter_unselected) simp
  then show ?thesis
    by (simp add: impl_of_delete case_prod_unfold conj_commute)
qed

lemma impl_of_cleanup:
  "DAList.impl_of (cleanup now c) = filter (\<lambda>(k, e). now \<le> timestamp e) (DAList.impl_of c)"
proof -
  have "DAList.impl_of (cleanup now c) =
          filter (\<lambda>x. \<not> (case x of (key, entry) \<Rightarrow> now > timestamp entry)) (DAList.impl_of c)"
    unfolding cleanup_def Let_def impl_of_fold_delete
    by (rule filter_unselected) simp
  then show ?thesis
    by (simp add: case_prod_unfold not_less)
qed

lemma lookup_filter:
  "DAList.lookup c k = map_of (DAList.impl_of c) k"
  by transfer simp

lemma map_of_filter_distinct:
  "distinct (map fst xs) \<Longrightarrow>
     map_of (filter P xs) k = (case map_of xs k of None \<Rightarrow> None | Some e \<Rightarrow> if P (k, e) then Some e else None)"
proof (induction xs)
  case Nil
  show ?case by simp
next
  case (Cons x xs)
  obtain k' e' where x: "x = (k', e')" by (cases x)
  from Cons.prems have d: "distinct (map fst xs)" and nin: "k' \<notin> fst ` set xs" by (auto simp: x)
  from nin have none: "map_of xs k' = None" by (simp add: map_of_eq_None_iff)
  show ?case
    using Cons.IH[OF d] none by (auto simp: x split: option.splits)
qed

lemma lookup_invalidate:
  "DAList.lookup (invalidate key c) k =
     (case DAList.lookup c k of
        None \<Rightarrow> None
      | Some e \<Rightarrow> if k \<noteq> key \<and> key \<notin> set (dependencies e) then Some e else None)"
  by (simp add: lookup_filter impl_of_invalidate map_of_filter_distinct split: option.splits)

lemma has_iff:
  "(k, e) \<in> set (DAList.impl_of c) \<Longrightarrow> has k now c = (now \<le> timestamp e)"
  by (simp add: has_def lookup_filter)

text \<open>
  Claim C1. Dependency invalidation is one level deep: after \<open>set(A, a, [])\<close>, \<open>set(B, b, [A])\<close>,
  \<open>set(C, c, [B])\<close> on three different keys (from any earlier cache state, at any times and
  with any TTLs), \<open>invalidate(A)\<close> leaves a cache in which \<open>get(A)\<close> and \<open>get(B)\<close> return null
  and \<open>get(C)\<close>, read while the entry of \<open>C\<close> is unexpired, returns \<open>c\<close>. None of the three reads
  changes the cache, so they may be made one after the other.
\<close>

theorem invalidate_one_level:
  "A \<noteq> B \<Longrightarrow> B \<noteq> C \<Longrightarrow> A \<noteq> C \<Longrightarrow> nowC \<le> tC + ttlC \<Longrightarrow>
     s = invalidate A (set_cache C c [B] ttlC tC (set_cache B b [A] ttlB tB (set_cache A a [] ttlA tA c0))) \<Longrightarrow>
     get_cache A nowA s = (None, s) \<and>
     get_cache B nowB s = (None, s) \<and>
     get_cache C nowC s = (Some c, s)"
  by (simp add: get_cache_def lookup_invalidate set_cache_def)

text \<open>The keys \<open>clients\<close>, \<open>deals\<close>, \<open>dashboard\<close>, set at times 0, 1, 2 with a TTL of 10 and read at time 7.\<close>

theorem invalidate_one_level_witness:
  "Clients \<noteq> Deals \<and> Deals \<noteq> Dashboard \<and> Clients \<noteq> Dashboard \<and> (7::int) \<le> 2 + 10 \<and>
   get_cache Clients 7
     (invalidate Clients (set_cache Dashboard ''c'' [Deals] 10 2
        (set_cache Deals ''b'' [Clients] 10 1 (set_cache Clients ''a'' [] 10 0 DAList.empty)))) =
     (None, invalidate Clients (set_cache Dashboard ''c'' [Deals] 10 2
        (set_cache Deals ''b'' [Clients] 10 1 (set_cache Clients ''a'' [] 10 0 DAList.empty)))) \<and>
   get_cache Deals 7
     (invalidate Clients (set_cache Dashboard ''c'' [Deals] 10 2
        (set_cache Deals ''b'' [Clients] 10 1 (set_cache Clients ''a'' [] 10 0 DAList.empty)))) =
     (None, invalidate Clients (set_cache Dashboard ''c'' [Deals] 10 2
        (set_cache Deals ''b'' [Clients] 10 1 (set_cache Clients ''a'' [] 10 0 DAList.empty)))) \<and>
   get_cache Dashboard 7
     (invalidate Clients (set_cache Dashboard ''c'' [Deals] 10 2
        (set_cache Deals ''b'' [Clients] 10 1 (set_cache Clients ''a'' [] 10 0 DAList.empty)))) =
     (Some ''c'', invalidate Clients (set_cache Dashboard ''c'' [Deals] 10 2
        (set_cache Deals ''b'' [Clients] 10 1 (set_cache Clients ''a'' [] 10 0 DAList.empty))))"
  using invalidate_one_level [of Clients Deals Dashboard 7 2 10 _ "''c''" "''b''" 10 1 "''a''" 10 0 DAList.empty 7 7]
  by simp

text \<open>
  Claim C2 as stated fails: \<open>getStats\<close> reads the size and the keys of the map without looking
  at any timestamp. An entry set at time 0 with a TTL of 1 is expired at time 2 (\<open>has\<close> is
  false), and is still listed and counted by \<open>getStats\<close>, which takes no clock reading.
\<close>

theorem expired_entry_still_in_stats:
  "\<not> has Clients 2 (set_cache Clients ''v'' [] 1 0 DAList.empty) \<and>
   Clients \<in> set (keys_stats (getStats (set_cache Clients ''v'' [] 1 0 DAList.empty))) \<and>
   size_stats (getStats (set_cache Clients ''v'' [] 1 0 DAList.empty)) = 1"
  by code_simp

text \<open>
  Claim C2, amended. \<open>getStats\<close> reads no clock: on the cache that \<open>set(k, ...)\<close> leaves, \<open>k\<close> is
  in its keys whatever the TTL. Right after \<open>cleanup\<close> at time \<open>now\<close>, \<open>getStats\<close> lists exactly
  the keys that were stored and unexpired at \<open>now\<close>, in their order, and \<open>size\<close> is their
  number.
\<close>

theorem stats_after_cleanup_live_only:
  "getStats (cleanup now c) =
     \<lparr>size_stats = length (filter (\<lambda>k. has k now c) (keys_stats (getStats c))),
      keys_stats = filter (\<lambda>k. has k now c) (keys_stats (getStats c))\<rparr> \<and>
   k \<in> set (keys_stats (getStats (set_cache k v deps ttl t c)))"
proof -
  let ?xs = "DAList.impl_of c"
  let ?live = "filter (\<lambda>(k, e). now \<le> timestamp e) ?xs"
  have keys: "map fst ?live = filter (\<lambda>k. has k now c) (map fst ?xs)"
    unfolding filter_map
    by (rule arg_cong[where f = "map fst"], rule filter_cong[OF refl]) (auto simp: has_iff)
  have "length ?live = length (map fst ?live)"
    by simp
  with keys have len: "length ?live = length (filter (\<lambda>k. has k now c) (map fst ?xs))"
    by (simp only:)
  have "k \<in> fst ` set (DAList.impl_of (set_cache k v deps ttl t c))"
    unfolding set_cache_def by transfer (simp add: dom_update)
  with keys len show ?thesis
    by (simp add: getStats_def impl_of_cleanup)
qed

text \<open>
  Claim C3. TTL round trip: for \<open>ttl > 0\<close>, \<open>set(k, v, [], ttl)\<close> at time \<open>now\<close> followed by
  \<open>get(k)\<close> at the same time returns \<open>v\<close> and leaves the cache as it is; at any time \<open>later\<close>
  strictly past \<open>now + ttl\<close>, \<open>get(k)\<close> returns null, and \<open>has(k)\<close> on the cache that \<open>get\<close> leaves
  is false at every time \<open>t\<close>.
\<close>

theorem cache_ttl_round_trip:
  "0 < ttl \<Longrightarrow>
     get_cache k now (set_cache k v [] ttl now c) = (Some v, set_cache k v [] ttl now c) \<and>
     (now + ttl < later \<longrightarrow>
        fst (get_cache k later (set_cache k v [] ttl now c)) = None \<and>
        \<not> has k t (snd (get_cache k later (set_cache k v [] ttl now c))))"
  by (simp add: get_cache_def set_cache_def has_def)

text \<open>Set at time 100 with a TTL of 5, read at 100 and at 106, then asked for at 107.\<close>

theorem cache_ttl_round_trip_witness:
  "(0::int) < 5 \<and>
   get_cache Clients 100 (set_cache Clients ''v'' [] 5 100 DAList.empty) =
     (Some ''v'', set_cache Clients ''v'' [] 5 100 DAList.empty) \<and>
   (100::int) + 5 < 106 \<and>
   fst (get_cache Clients 106 (set_cache Clients ''v'' [] 5 100 DAList.empty)) = None \<and>
   \<not> has Clients 107 (snd (get_cache Clients 106 (set_cache Clients ''v'' [] 5 100 DAList.empty)))"
  using cache_ttl_round_trip [of 5 Clients 100 "''v''" DAList.empty 106 107]
  by simp

text \<open>
  Claim C10. Invalidating a key that has no entry still cascades: when nothing is stored
  under \<open>k\<close>, \<open>invalidate(k)\<close> leaves exactly the stored entries whose dependencies do not
  contain \<open>k\<close>, unchanged and in their order (the model has no error branch: \<open>Map.delete\<close> of
  an absent key does not throw).
\<close>

theorem invalidate_absent_key_cascades:
  "DAList.lookup c k = None \<Longrightarrow>
     DAList.impl_of (invalidate k c) =
       filter (\<lambda>(k', e). k \<notin> set (dependencies e)) (DAList.impl_of c)"
proof -
  assume "DAList.lookup c k = None"
  then have "k \<notin> fst ` set (DAList.impl_of c)"
    by (simp add: lookup_filter map_of_eq_None_iff)
  then have "\<And>x. x \<in> set (DAList.impl_of c) \<Longrightarrow> fst x \<noteq> k"
    by auto
  then show ?thesis
    unfolding impl_of_invalidate
    by (intro filter_cong[OF refl]) (auto simp: case_prod_unfold)
qed

text \<open>A cache holding \<open>dashboard\<close> (depending on \<open>clients\<close>) and \<open>deals\<close>, and no entry for \<open>clients\<close>.\<close>

theorem invalidate_absent_key_cascades_witness:
  "DAList.lookup (set_cache Deals ''d'' [] 10 0 (set_cache Dashboard ''s'' [Clients] 10 0 DAList.empty)) Clients = None \<and>
   DAList.impl_of (invalidate Clients
       (set_cache Deals ''d'' [] 10 0 (set_cache Dashboard ''s'' [Clients] 10 0 DAList.empty))) =
     filter (\<lambda>(k', e). Clients \<notin> set (dependencies e))
       (DAList.impl_of (set_cache Deals ''d'' [] 10 0 (set_cache Dashboard ''s'' [Clients] 10 0 DAList.empty)))"
  using invalidate_absent_key_cascades
    [of "set_cache Deals ''d'' [] 10 0 (set_cache Dashboard ''s'' [Clients] 10 0 DAList.empty)" Clients]
  by (simp add: set_cache_def)

section \<open>Properties of the availability check and the health snapshot\<close>

lemma status_known_after_check:
  "isSupabaseAvailable r now env = (a, env', p) \<Longrightarrow> supabaseConnectionStatus env' \<noteq> Unknown"
  by (auto simp: isSupabaseAvailable_def Let_def split: if_splits head_response.splits)

lemma last_check_after_probe:
  "isSupabaseAvailable r now env = (a, env', p) \<Longrightarrow> p \<noteq> CachedStatus \<Longrightarrow> lastConnectionCheck env' = now"
  by (auto simp: isSupabaseAvailable_def Let_def split: if_splits)

text \<open>
  Claim C4. Availability-check cooldown, for two sequential calls of \<open>isSupabaseAvailable\<close>
  (the second starts in the state the first left). A call that does not return from the
  cache makes the live check: a HEAD request when the service is configured, and the direct
  transition to \<open>failed\<close> when it is not. If the two calls are less than the interval apart, at
  most one of them makes the live check. If the second call is within the interval after the
  last check that the first call left, it returns the cached status without checking and
  leaves the state as it is (after any call the status is never \<open>unknown\<close>). A call made once
  the interval has elapsed makes the live check whatever status was cached, and records its
  time and its result.
\<close>

theorem availability_cooldown:
  "isSupabaseAvailable r1 now1 env = (a1, env1, p1) \<Longrightarrow>
   isSupabaseAvailable r2 now2 env1 = (a2, env2, p2) \<Longrightarrow>
     (now2 - now1 < CONNECTION_CHECK_INTERVAL \<longrightarrow> p1 = CachedStatus \<or> p2 = CachedStatus) \<and>
     (now2 - lastConnectionCheck env1 < CONNECTION_CHECK_INTERVAL \<longrightarrow>
        p2 = CachedStatus \<and> env2 = env1 \<and> a2 = (supabaseConnectionStatus env1 = Connected)) \<and>
     (CONNECTION_CHECK_INTERVAL \<le> now1 - lastConnectionCheck env \<longrightarrow>
        p1 = (if isSupabaseConfigured env then HeadRequest r1 else NotConfigured) \<and>
        lastConnectionCheck env1 = now1 \<and>
        supabaseConnectionStatus env1 =
          (if isSupabaseConfigured env \<and> r1 = ResponseOk then Connected else Failed) \<and>
        a1 = (isSupabaseConfigured env \<and> r1 = ResponseOk))"
proof (intro conjI impI)
  assume c1: "isSupabaseAvailable r1 now1 env = (a1, env1, p1)"
    and c2: "isSupabaseAvailable r2 now2 env1 = (a2, env2, p2)"
  have known: "supabaseConnectionStatus env1 \<noteq> Unknown"
    using c1 by (rule status_known_after_check)
  {
    assume w: "now2 - lastConnectionCheck env1 < CONNECTION_CHECK_INTERVAL"
    with known c2 show "p2 = CachedStatus" "env2 = env1" "a2 = (supabaseConnectionStatus env1 = Connected)"
      by (auto simp: isSupabaseAvailable_def)
  }
  note within = this
  {
    assume near: "now2 - now1 < CONNECTION_CHECK_INTERVAL"
    show "p1 = CachedStatus \<or> p2 = CachedStatus"
    proof (cases "p1 = CachedStatus")
      case True
      then show ?thesis by simp
    next
      case False
      with c1 have "lastConnectionCheck env1 = now1" by (rule last_check_after_probe)
      with near within(1) show ?thesis by simp
    qed
  }
  {
    assume late: "CONNECTION_CHECK_INTERVAL \<le> now1 - lastConnectionCheck env"
    then have "isSupabaseAvailable r1 now1 env =
        (isSupabaseConfigured env \<and> r1 = ResponseOk,
         env\<lparr>supabaseConnectionStatus :=
               (if isSupabaseConfigured env \<and> r1 = ResponseOk then Connected else Failed),
             lastConnectionCheck := now1\<rparr>,
         if isSupabaseConfigured env then HeadRequest r1 else NotConfigured)"
      by (cases r1) (simp_all add: isSupabaseAvailable_def)
    with c1 have "a1 = (isSupabaseConfigured env \<and> r1 = ResponseOk)"
      and "env1 = env\<lparr>supabaseConnectionStatus :=
               (if isSupabaseConfigured env \<and> r1 = ResponseOk then Connected else Failed),
             lastConnectionCheck := now1\<rparr>"
      and "p1 = (if isSupabaseConfigured env then HeadRequest r1 else NotConfigured)"
      by auto
    then show "p1 = (if isSupabaseConfigured env then HeadRequest r1 else NotConfigured)"
      "lastConnectionCheck env1 = now1"
      "supabaseConnectionStatus env1 = (if isSupabaseConfigured env \<and> r1 = ResponseOk then Connected else Failed)"
      "a1 = (isSupabaseConfigured env \<and> r1 = ResponseOk)"
      by simp_all
  }
qed

text \<open>A first call at 100000 ms on the unknown state, answered with \<open>ok\<close>, and a second at 110000 ms.\<close>

theorem availability_cooldown_witness:
  "isSupabaseAvailable ResponseOk 100000 example_env =
     (True, example_env\<lparr>supabaseConnectionStatus := Connected, lastConnectionCheck := 100000\<rparr>,
      HeadRequest ResponseOk) \<and>
   isSupabaseAvailable RequestFailed 110000
       (example_env\<lparr>supabaseConnectionStatus := Connected, lastConnectionCheck := 100000\<rparr>) =
     (True, example_env\<lparr>supabaseConnectionStatus := Connected, lastConnectionCheck := 100000\<rparr>,
      CachedStatus) \<and>
   (110000::int) - 100000 < CONNECTION_CHECK_INTERVAL \<and>
   110000 - lastConnectionCheck
       (example_env\<lparr>supabaseConnectionStatus := Connected, lastConnectionCheck := 100000\<rparr>)
     < CONNECTION_CHECK_INTERVAL \<and>
   CONNECTION_CHECK_INTERVAL \<le> 100000 - lastConnectionCheck example_env \<and>
   isSupabaseConfigured example_env"
proof -
  let ?e1 = "example_env\<lparr>supabaseConnectionStatus := Connected, lastConnectionCheck := 100000\<rparr>"
  have c1: "isSupabaseAvailable ResponseOk 100000 example_env = (True, ?e1, HeadRequest ResponseOk)"
    by (simp add: isSupabaseAvailable_def isSupabaseConfigured_def example_env_def
        CONNECTION_CHECK_INTERVAL_def)
  have c2: "isSupabaseAvailable RequestFailed 110000 ?e1 = (True, ?e1, CachedStatus)"
    by (simp add: isSupabaseAvailable_def CONNECTION_CHECK_INTERVAL_def)
  from availability_cooldown [OF c1 c2] c1 c2 show ?thesis
    by (simp add: CONNECTION_CHECK_INTERVAL_def example_env_def isSupabaseConfigured_def)
qed

text \<open>
  Claim C5. Fallback decision: in every connection state and whatever the network would
  answer, \<open>shouldUseMockData\<close> returns false, without checking availability, when the
  force flag is not set and the development posture is off; it returns true when the force
  flag is set, and so after \<open>enableMockData(true)\<close>.
\<close>

theorem fallback_decision:
  "(\<not> enableMockData (defaultConfig env) \<and> \<not> isDevelopment (defaultConfig env) \<longrightarrow>
      shouldUseMockData r now env = (False, env, None)) \<and>
   (enableMockData (defaultConfig env) \<longrightarrow> shouldUseMockData r now env = (True, env, None)) \<and>
   fst (shouldUseMockData r now (enableMockData_call True env)) = True"
  by (simp add: shouldUseMockData_def enableMockData_call_def)

text \<open>A production configuration whose service has failed, and the same after \<open>enableMockData(true)\<close>.\<close>

theorem fallback_decision_witness:
  "\<not> enableMockData (defaultConfig (example_env\<lparr>supabaseConnectionStatus := Failed\<rparr>)) \<and>
   \<not> isDevelopment (defaultConfig (example_env\<lparr>supabaseConnectionStatus := Failed\<rparr>)) \<and>
   shouldUseMockData RequestFailed 50000 (example_env\<lparr>supabaseConnectionStatus := Failed\<rparr>) =
     (False, example_env\<lparr>supabaseConnectionStatus := Failed\<rparr>, None) \<and>
   enableMockData (defaultConfig (enableMockData_call True example_env)) \<and>
   shouldUseMockData ResponseOk 50000 (enableMockData_call True example_env) =
     (True, enableMockData_call True example_env, None)"
  using fallback_decision [of "example_env\<lparr>supabaseConnectionStatus := Failed\<rparr>" RequestFailed 50000]
    fallback_decision [of "enableMockData_call True example_env" ResponseOk 50000]
  by (simp add: example_env_def enableMockData_call_def)

text \<open>
  Claim C6. The overall status is the worst of the service statuses: for every list of
  service records the derivation gives unhealthy if some service is unhealthy, else degraded
  if some service is degraded, else healthy. Every snapshot \<open>checkSystemHealth\<close> returns or
  caches keeps that relation to its own services if the cached one had it, and a snapshot
  it computes (nothing cached, or a forced refresh with no check in progress) holds the
  probed service and its status.
\<close>

theorem overall_is_worst_status:
  "overall_of svcs =
     (if \<exists>s \<in> set svcs. status s = Unhealthy then Unhealthy
      else if \<exists>s \<in> set svcs. status s = Degraded then Degraded
      else Healthy) \<and>
   ((\<forall>h. lastHealthCheck st = Some h \<longrightarrow> overall h = overall_of (services h)) \<longrightarrow>
      overall (fst (checkSystemHealth forceRefresh now supabaseStatus st)) =
        overall_of (services (fst (checkSystemHealth forceRefresh now supabaseStatus st))) \<and>
      (\<forall>h. lastHealthCheck (snd (checkSystemHealth forceRefresh now supabaseStatus st)) = Some h \<longrightarrow>
         overall h = overall_of (services h))) \<and>
   (lastHealthCheck st = None \<or> forceRefresh \<and> \<not> healthCheckInProgress st \<longrightarrow>
      fst (checkSystemHealth forceRefresh now supabaseStatus st) =
        \<lparr>overall = status supabaseStatus, services = [supabaseStatus], timestamp_health = now\<rparr>)"
proof (intro conjI)
  show "overall_of svcs =
     (if \<exists>s \<in> set svcs. status s = Unhealthy then Unhealthy
      else if \<exists>s \<in> set svcs. status s = Degraded then Degraded
      else Healthy)"
    by (simp add: overall_of_def Let_def filter_empty_conv)
  show "(\<forall>h. lastHealthCheck st = Some h \<longrightarrow> overall h = overall_of (services h)) \<longrightarrow>
      overall (fst (checkSystemHealth forceRefresh now supabaseStatus st)) =
        overall_of (services (fst (checkSystemHealth forceRefresh now supabaseStatus st))) \<and>
      (\<forall>h. lastHealthCheck (snd (checkSystemHealth forceRefresh now supabaseStatus st)) = Some h \<longrightarrow>
         overall h = overall_of (services h))"
    by (auto simp: checkSystemHealth_def run_checks_def Let_def split: option.splits)
  have single: "overall_of [supabaseStatus] = status supabaseStatus"
    by (cases "status supabaseStatus") (simp_all add: overall_of_def)
  show "lastHealthCheck st = None \<or> forceRefresh \<and> \<not> healthCheckInProgress st \<longrightarrow>
      fst (checkSystemHealth forceRefresh now supabaseStatus st) =
        \<lparr>overall = status supabaseStatus, services = [supabaseStatus], timestamp_health = now\<rparr>"
    by (auto simp: checkSystemHealth_def run_checks_def Let_def single split: option.splits)
qed

text \<open>Three services, one of each status, and a cached degraded snapshot, at time 20.\<close>

theorem overall_is_worst_status_witness:
  "(\<exists>s \<in> set [example_service Healthy, example_service Degraded, example_service Unhealthy].
      status s = Unhealthy) \<and>
   overall_of [example_service Healthy, example_service Degraded, example_service Unhealthy] = Unhealthy \<and>
   lastHealthCheck example_health_state =
     Some \<lparr>overall = Degraded, services = [example_service Degraded], timestamp_health = 10\<rparr> \<and>
   overall_of [example_service Degraded] = Degraded \<and>
   overall (fst (checkSystemHealth False 20 (example_service Unhealthy) example_health_state)) =
     overall_of (services (fst (checkSystemHealth False 20 (example_service Unhealthy) example_health_state))) \<and>
   \<not> healthCheckInProgress example_health_state \<and>
   fst (checkSystemHealth True 20 (example_service Unhealthy) example_health_state) =
     \<lparr>overall = Unhealthy, services = [example_service Unhealthy], timestamp_health = 20\<rparr>"
proof -
  let ?three = "[example_service Healthy, example_service Degraded, example_service Unhealthy]"
  let ?u = "example_service Unhealthy"
  have bad: "\<exists>s \<in> set ?three. status s = Unhealthy"
    by (simp add: example_service_def)
  have inv: "\<forall>h. lastHealthCheck example_health_state = Some h \<longrightarrow> overall h = overall_of (services h)"
    by (simp add: example_health_state_def example_service_def overall_of_def)
  have idle: "\<not> healthCheckInProgress example_health_state"
    by (simp add: example_health_state_def)
  have su: "status ?u = Unhealthy"
    by (simp add: example_service_def)
  note cached = overall_is_worst_status [of ?three example_health_state False 20 ?u]
  note forced = overall_is_worst_status [of ?three example_health_state True 20 ?u]
  from cached bad have "overall_of ?three = Unhealthy"
    by (simp only: if_True)
  moreover from cached inv
  have "overall (fst (checkSystemHealth False 20 ?u example_health_state)) =
     overall_of (services (fst (checkSystemHealth False 20 ?u example_health_state)))"
    by blast
  moreover from forced idle su
  have "fst (checkSystemHealth True 20 ?u example_health_state) =
     \<lparr>overall = Unhealthy, services = [?u], timestamp_health = 20\<rparr>"
    by (simp only: simp_thms)
  moreover have "lastHealthCheck example_health_state =
     Some \<lparr>overall = Degraded, services = [example_service Degraded], timestamp_health = 10\<rparr>"
    and "overall_of [example_service Degraded] = Degraded"
    by (simp_all add: example_health_state_def example_service_def overall_of_def)
  ultimately show ?thesis
    using bad idle by blast
qed

section \<open>Properties of the logger\<close>

subsection \<open>What each sink operation leaves unchanged\<close>






lemma logToStorage_non_array:
  "enableStorage (config lg) \<Longrightarrow> window w \<noteq> None \<Longrightarrow> app_logs w = Json_non_array \<Longrightarrow>
     logToStorage lg e w =
       w\<lparr>console := console w @
           [(Console_warn, [Text ''Failed to store log entry:'', Caught_error])]\<rparr>"
  by (auto simp: logToStorage_def getStoredLogs_def)









subsection \<open>The stored logs after a run of calls\<close>





subsection \<open>The console only grows\<close>







subsection \<open>Remote delivery\<close>



end
